theory Spec2Isabelle
  imports Main "HOL-Library.Word"
begin

unbundle bit_operations_syntax

section \<open>Data model\<close>

text \<open>
  Bytes are 8-bit words. Go's \<open>int\<close> is modelled as \<open>int\<close> (slice lengths never
  come near its bounds), \<open>uint\<close> and \<open>uint64\<close> as 64-bit words and \<open>uint16\<close> as 16-bit
  words, so that the conversions \<open>uint16(chunkLength)\<close> and \<open>byte(payloadLength)\<close>
  truncate as they do in Go.
\<close>

type_synonym byte = "8 word"

text \<open>
  The package's error values, together with \<open>io.EOF\<close> of the byte readers and one
  value standing for any failure reported by the transport.
\<close>

datatype error =
    BadRequest
  | InvalidFrameType
  | HijackingNotSupported
  | InvalidOpcode
  | InvalidLength
  | EOF
  | TransportError

text \<open>
  A Go call either returns or panics (index out of range, nil dereference,
  \<open>make\<close> with a length that is no \<open>int\<close>).
\<close>

datatype 'a result = Returns 'a | Panics

text \<open>\<open>type Opcode string\<close> and \<open>type WebsocketType string\<close>, with their named values.\<close>

type_synonym Opcode = string
type_synonym WebsocketType = string

definition ContinuationFrame :: Opcode where "ContinuationFrame = ''continuation frame''"
definition TextFrame :: Opcode where "TextFrame = ''text frame''"
definition BinaryFrame :: Opcode where "BinaryFrame = ''binary frame''"
definition NonControlFrame :: Opcode where "NonControlFrame = ''non control frame''"
definition ConnectionClose :: Opcode where "ConnectionClose = ''connection close''"
definition Ping :: Opcode where "Ping = ''ping''"
definition Pong :: Opcode where "Pong = ''pong''"
definition ControlFrame :: Opcode where "ControlFrame = ''control frame''"

definition TextWebsocket :: WebsocketType where "TextWebsocket = ''text''"
definition BinaryWebsocket :: WebsocketType where "BinaryWebsocket = ''binary''"

lemmas opcode_defs =
  ContinuationFrame_def TextFrame_def BinaryFrame_def NonControlFrame_def
  ConnectionClose_def Ping_def Pong_def ControlFrame_def

lemmas wstype_defs = TextWebsocket_def BinaryWebsocket_def

text \<open>
  \<open>type Frame struct\<close>. The three length pointers are options (\<open>None\<close> is \<open>nil\<close>);
  a \<open>nil\<close> slice is the empty list.
\<close>

record Frame =
  FIN :: bool
  RSV1 :: bool
  RSV2 :: bool
  RSV3 :: bool
  Opcode :: Opcode
  Mask :: bool
  payloadLengthInt :: "64 word option"
  payloadLengthInt16 :: "16 word option"
  payloadLengthInt64 :: "64 word option"
  MaskingKey :: "byte list"
  ExtensionData :: "byte list"
  ApplicationData :: "byte list"

text \<open>The zero value \<open>Frame{}\<close>.\<close>

definition zeroFrame :: Frame where
  "zeroFrame = \<lparr> FIN = False, RSV1 = False, RSV2 = False, RSV3 = False, Opcode = [],
     Mask = False, payloadLengthInt = None, payloadLengthInt16 = None,
     payloadLengthInt64 = None, MaskingKey = [], ExtensionData = [],
     ApplicationData = [] \<rparr>"

definition PayloadLength :: "Frame \<Rightarrow> 64 word" where
  "PayloadLength f =
     (case payloadLengthInt f of Some s \<Rightarrow> s
      | None \<Rightarrow> (case payloadLengthInt16 f of Some s \<Rightarrow> ucast s
        | None \<Rightarrow> (case payloadLengthInt64 f of Some s \<Rightarrow> s
          | None \<Rightarrow> 0)))"

section \<open>Masking\<close>

text \<open>
  The loop of \<open>umask\<close>: \<open>umasked = append(umasked, b^mask[j])\<close> with \<open>j = i % 4\<close>.
  Indexing \<open>mask\<close> beyond its length panics.
\<close>

fun umask_loop :: "byte list \<Rightarrow> nat \<Rightarrow> byte list \<Rightarrow> byte list \<Rightarrow> byte list result" where
  "umask_loop mk i [] umasked = Returns umasked"
| "umask_loop mk i (b # bs) umasked =
     (let j = i mod 4 in
      if j < length mk then umask_loop mk (Suc i) bs (umasked @ [b XOR mk ! j])
      else Panics)"

text \<open>
  \<open>umask\<close> starts from \<open>make([]byte, len(payload))\<close>, a slice of that many zero
  bytes, and appends to it. Its error result is always \<open>nil\<close>.
\<close>

definition umask :: "Frame \<Rightarrow> (byte list \<times> error option) result" where
  "umask f =
     (let payload = ApplicationData f;
          umasked = replicate (length payload) 0;
          mk = MaskingKey f
      in case umask_loop mk 0 payload umasked of
           Panics \<Rightarrow> Panics
         | Returns u \<Rightarrow> Returns (u, None))"

section \<open>Fragmentation\<close>

text \<open>
  \<open>bytes.Reader.Read\<close> on the slice \<open>s\<close> at position \<open>i\<close>: at the end it reports
  \<open>io.EOF\<close>, otherwise it copies as many bytes as fit into \<open>b\<close> and advances. The
  result is the buffer, the count, the error, and the new position.
\<close>

definition Reader_Read ::
  "byte list \<Rightarrow> nat \<Rightarrow> byte list \<Rightarrow> byte list \<times> nat \<times> error option \<times> nat" where
  "Reader_Read s i b =
     (if i \<ge> length s then (b, 0, Some EOF, i)
      else let n = min (length b) (length s - i)
           in (take n (drop i s) @ drop n b, n, None, i + n))"

text \<open>
  The length fields of a fresh frame, as \<open>fragment\<close> chooses them from
  \<open>chunkLength\<close>; \<open>None\<close> is the branch that returns \<open>InvalidLength\<close>.
\<close>

definition setChunkLength :: "int \<Rightarrow> Frame \<Rightarrow> Frame option" where
  "setChunkLength chunkLength frame =
     (if chunkLength < 126 then
        Some (frame\<lparr>payloadLengthInt := Some (word_of_int chunkLength)\<rparr>)
      else if (word_of_int chunkLength :: 16 word) \<ge> 126
              \<and> (word_of_int chunkLength :: 16 word) < 0xFFFF then
        Some (frame\<lparr>payloadLengthInt16 := Some (word_of_int chunkLength)\<rparr>)
      else if (word_of_int chunkLength :: 64 word) \<ge> 0xFFFF
              \<and> (word_of_int chunkLength :: 64 word) < 0xFFFFFFFFFFFFFFFF then
        Some (frame\<lparr>payloadLengthInt64 := Some (word_of_int chunkLength)\<rparr>)
      else None)"

text \<open>
  One iteration of the \<open>for\<close> loop of \<open>fragment\<close>. The loop state is the reader
  position \<open>i\<close>, the counter \<open>payloadLength\<close> and the frames built so far. An
  iteration either goes round again with a new state or leaves the loop: by \<open>break\<close>
  (the frames, no error), by returning \<open>InvalidLength\<close>, or by the panic of \<open>make\<close> on
  a negative length.
\<close>

datatype fragment_state =
    Continue nat int "Frame list"
  | Leave "(Frame list \<times> error option) result"

definition fragment_iter ::
  "int \<Rightarrow> byte list \<Rightarrow> nat \<Rightarrow> int \<Rightarrow> Frame list \<Rightarrow> fragment_state" where
  "fragment_iter limit data i payloadLength frames =
     (let chunkSize = (if limit < payloadLength then limit else payloadLength) in
      if chunkSize < 0 then Leave Panics
      else
        (case Reader_Read data i (replicate (nat chunkSize) 0) of
           (chunk, read, err, i') \<Rightarrow>
             if err = Some EOF then Leave (Returns (frames, None))
             else
               (case setChunkLength (int (length chunk))
                       (zeroFrame\<lparr>ApplicationData := chunk, Opcode := ContinuationFrame\<rparr>) of
                  None \<Rightarrow> Leave (Returns (frames, Some InvalidLength))
                | Some frame \<Rightarrow>
                    Continue i' (payloadLength - int read) (frames @ [frame]))))"

text \<open>The loop itself; a run that never leaves it has the value \<open>None\<close>.\<close>

partial_function (option) fragment_loop ::
  "int \<Rightarrow> byte list \<Rightarrow> nat \<Rightarrow> int \<Rightarrow> Frame list \<Rightarrow> (Frame list \<times> error option) result option"
where
  "fragment_loop limit data i payloadLength frames =
     (case fragment_iter limit data i payloadLength frames of
        Leave r \<Rightarrow> Some r
      | Continue i' payloadLength' frames' \<Rightarrow>
          fragment_loop limit data i' payloadLength' frames')"

text \<open>
  After the loop: \<open>FIN\<close> on the last frame, the message opcode on the first. The
  frames are pointers, so both assignments update the list in place.
\<close>

definition finish_frames :: "WebsocketType \<Rightarrow> Frame list \<Rightarrow> Frame list \<times> error option" where
  "finish_frames ty frames =
     (if length frames > 0 then
        (let frames1 = frames[length frames - 1 := (frames ! (length frames - 1))\<lparr>FIN := True\<rparr>]
         in if ty = TextWebsocket then
              (frames1[0 := (frames1 ! 0)\<lparr>Opcode := TextFrame\<rparr>], None)
            else if ty = BinaryWebsocket then
              (frames1[0 := (frames1 ! 0)\<lparr>Opcode := BinaryFrame\<rparr>], None)
            else (frames1, Some InvalidFrameType))
      else (frames, None))"

text \<open>\<open>fragment\<close> for a connection of type \<open>ty\<close> with framing limit \<open>limit\<close>.\<close>

definition fragment ::
  "WebsocketType \<Rightarrow> int \<Rightarrow> byte list \<Rightarrow> (Frame list \<times> error option) result option" where
  "fragment ty limit data =
     (case fragment_loop limit data 0 (int (length data)) [] of
        None \<Rightarrow> None
      | Some Panics \<Rightarrow> Some Panics
      | Some (Returns (frames, Some e)) \<Rightarrow> Some (Returns (frames, Some e))
      | Some (Returns (frames, None)) \<Rightarrow> Some (Returns (finish_frames ty frames)))"

section \<open>Writing frames\<close>

text \<open>
  The \<open>bufio.Writer\<close> of a connection: the bytes handed to it so far, in order, and
  the error it has met, if any. As in \<open>bufio\<close>, a writer that has met an error
  reports it on every later call and accepts nothing more. Buffering is not modelled.
\<close>

record Writer =
  werr :: "error option"
  out :: "byte list"

definition WriteByte :: "byte \<Rightarrow> Writer \<Rightarrow> error option \<times> Writer" where
  "WriteByte c w = (case werr w of Some e \<Rightarrow> (Some e, w) | None \<Rightarrow> (None, w\<lparr>out := out w @ [c]\<rparr>))"

definition Write :: "byte list \<Rightarrow> Writer \<Rightarrow> error option \<times> Writer" where
  "Write p w = (case werr w of Some e \<Rightarrow> (Some e, w) | None \<Rightarrow> (None, w\<lparr>out := out w @ p\<rparr>))"

definition Flush :: "Writer \<Rightarrow> error option \<times> Writer" where
  "Flush w = (case werr w of Some e \<Rightarrow> (Some e, w) | None \<Rightarrow> (None, w))"

text \<open>\<open>binary.BigEndian\<close>: most significant byte first.\<close>

definition PutUint16 :: "16 word \<Rightarrow> byte list" where
  "PutUint16 v = [ucast (drop_bit 8 v), ucast v]"

definition PutUint64 :: "64 word \<Rightarrow> byte list" where
  "PutUint64 v =
     [ucast (drop_bit 56 v), ucast (drop_bit 48 v), ucast (drop_bit 40 v), ucast (drop_bit 32 v),
      ucast (drop_bit 24 v), ucast (drop_bit 16 v), ucast (drop_bit 8 v), ucast v]"

definition Uint16 :: "byte list \<Rightarrow> 16 word" where
  "Uint16 b = ucast (b ! 1) OR push_bit 8 (ucast (b ! 0))"

definition Uint64 :: "byte list \<Rightarrow> 64 word" where
  "Uint64 b =
     ucast (b ! 7) OR push_bit 8 (ucast (b ! 6)) OR push_bit 16 (ucast (b ! 5))
     OR push_bit 24 (ucast (b ! 4)) OR push_bit 32 (ucast (b ! 3))
     OR push_bit 40 (ucast (b ! 2)) OR push_bit 48 (ucast (b ! 1))
     OR push_bit 56 (ucast (b ! 0))"

text \<open>
  The first \<open>switch\<close> of \<open>writeFrame\<close>: the bits or-ed into \<open>frameIdentifier\<close> for
  an opcode; \<open>None\<close> is the \<open>default\<close> branch, which returns \<open>InvalidOpcode\<close>.
\<close>

definition opcodeBits :: "Opcode \<Rightarrow> int option" where
  "opcodeBits oc =
     (if oc = ContinuationFrame then Some 0x00
      else if oc = TextFrame then Some 0x01
      else if oc = BinaryFrame then Some 0x02
      else if oc = ConnectionClose then Some 0x08
      else if oc = Ping then Some 0x09
      else if oc = Pong then Some 0x0A
      else None)"

text \<open>
  The value written as the second byte: the length itself, 126 or 127; \<open>None\<close> is
  the branch that returns \<open>InvalidLength\<close>.
\<close>

definition lengthByte :: "64 word \<Rightarrow> 64 word option" where
  "lengthByte pl =
     (if 0 \<le> pl \<and> pl \<le> 125 then Some pl
      else if pl \<le> 0xFFFF then Some 126
      else if pl \<le> 0xFFFFFFFFFFFFFFFF then Some 127
      else None)"

text \<open>
  The end of \<open>writeFrame\<close>: the application data and the flush.
\<close>

definition writePayload :: "Frame \<Rightarrow> Writer \<Rightarrow> (error option \<times> Writer) result" where
  "writePayload frame w =
     (case Write (ApplicationData frame) w of
        (Some e, w1) \<Rightarrow> Returns (Some e, w1)
      | (None, w1) \<Rightarrow> Returns (Flush w1))"

text \<open>
  The extended length. \<open>*frame.payloadLengthInt16\<close> and \<open>*frame.payloadLengthInt64\<close>
  dereference the pointers without a check: on \<open>nil\<close> they panic.
\<close>

definition writeExtendedLength ::
  "Frame \<Rightarrow> 64 word \<Rightarrow> Writer \<Rightarrow> (error option \<times> Writer) result" where
  "writeExtendedLength frame payloadLength w =
     (if payloadLength = 126 then
        (case payloadLengthInt16 frame of
           None \<Rightarrow> Panics
         | Some v \<Rightarrow>
             (case Write (PutUint16 v) w of
                (Some e, w1) \<Rightarrow> Returns (Some e, w1)
              | (None, w1) \<Rightarrow> writePayload frame w1))
      else if payloadLength = 127 then
        (case payloadLengthInt64 frame of
           None \<Rightarrow> Panics
         | Some v \<Rightarrow>
             (case Write (PutUint64 v) w of
                (Some e, w1) \<Rightarrow> Returns (Some e, w1)
              | (None, w1) \<Rightarrow> writePayload frame w1))
      else writePayload frame w)"

definition writeFrame :: "Frame \<Rightarrow> Writer \<Rightarrow> (error option \<times> Writer) result" where
  "writeFrame frame w =
     (let frameIdentifier = (if FIN frame then (0x00 :: int) OR 0x80 else 0x00) in
      case opcodeBits (Opcode frame) of
        None \<Rightarrow> Returns (Some InvalidOpcode, w)
      | Some bits \<Rightarrow>
          (case WriteByte (word_of_int (frameIdentifier OR bits)) w of
             (Some e, w1) \<Rightarrow> Returns (Some e, w1)
           | (None, w1) \<Rightarrow>
               (case lengthByte (PayloadLength frame) of
                  None \<Rightarrow> Returns (Some InvalidLength, w1)
                | Some payloadLength \<Rightarrow>
                    (case WriteByte (ucast payloadLength) w1 of
                       (Some e, w2) \<Rightarrow> Returns (Some e, w2)
                     | (None, w2) \<Rightarrow> writeExtendedLength frame payloadLength w2))))"

text \<open>The \<open>for\<close> loop of \<open>Send\<close>: it stops at the first error.\<close>

fun writeFrames :: "Frame list \<Rightarrow> Writer \<Rightarrow> (error option \<times> Writer) result" where
  "writeFrames [] w = Returns (None, w)"
| "writeFrames (frame # frames) w =
     (case writeFrame frame w of
        Panics \<Rightarrow> Panics
      | Returns (Some e, w1) \<Rightarrow> Returns (Some e, w1)
      | Returns (None, w1) \<Rightarrow> writeFrames frames w1)"

text \<open>
  \<open>Send\<close> on a connection of type \<open>ty\<close> with framing limit \<open>limit\<close> and writer
  \<open>w\<close>. \<open>None\<close>: the fragmentation loop never ends.
\<close>

definition Send ::
  "WebsocketType \<Rightarrow> int \<Rightarrow> byte list \<Rightarrow> Writer \<Rightarrow> (error option \<times> Writer) result option" where
  "Send ty limit data w =
     (case fragment ty limit data of
        None \<Rightarrow> None
      | Some Panics \<Rightarrow> Some Panics
      | Some (Returns (frames, Some e)) \<Rightarrow> Some (Returns (Some e, w))
      | Some (Returns (frames, None)) \<Rightarrow> Some (writeFrames frames w))"

section \<open>Reading frames\<close>

text \<open>The largest \<open>int\<close> of a 64-bit platform.\<close>

definition MaxInt :: int where
  "MaxInt = 2 ^ 63 - 1"

text \<open>
  The \<open>bufio.Reader\<close> of a connection is modelled by the bytes the peer sends before
  it closes the connection, all of them available at once. \<open>ReadByte\<close> takes the
  next byte; at the end it reports \<open>io.EOF\<close>.
\<close>

type_synonym Stream = "byte list"

definition ReadByte :: "Stream \<Rightarrow> (error + byte) \<times> Stream" where
  "ReadByte s = (case s of [] \<Rightarrow> (Inl EOF, []) | b # s1 \<Rightarrow> (Inr b, s1))"

text \<open>
  \<open>Read(p)\<close> fills \<open>p\<close> from the front with the bytes that are there, at most
  \<open>len(p)\<close> of them, and leaves the rest of \<open>p\<close> as it was; a short read is not an
  error. It reports \<open>io.EOF\<close> only when \<open>p\<close> is not empty and no byte is left. The
  result is the buffer, the count and the error, and the rest of the stream.
\<close>

definition Read :: "byte list \<Rightarrow> Stream \<Rightarrow> (byte list \<times> nat \<times> error option) \<times> Stream" where
  "Read p s =
     (if length p = 0 then ((p, 0, None), s)
      else if s = [] then ((p, 0, Some EOF), s)
      else let n = min (length p) (length s)
           in ((take n s @ drop n p, n, None), drop n s))"

text \<open>
  A step of \<open>readFrame\<close> returns an error or a value, or panics, and leaves the rest
  of the stream; \<open>bind_read\<close> runs the next step when the one before returned a value.
\<close>

type_synonym 'a reading = "(error + 'a) result \<times> Stream"

definition bind_read :: "'a reading \<Rightarrow> ('a \<Rightarrow> Stream \<Rightarrow> 'b reading) \<Rightarrow> 'b reading" where
  "bind_read r k =
     (case r of
        (Returns (Inr a), s) \<Rightarrow> k a s
      | (Returns (Inl e), s) \<Rightarrow> (Returns (Inl e), s)
      | (Panics, s) \<Rightarrow> (Panics, s))"

text \<open>The \<open>switch\<close> on the opcode nibble; \<open>None\<close> is its \<open>default\<close> branch.\<close>

definition opcodeOf :: "byte \<Rightarrow> Opcode option" where
  "opcodeOf opcode =
     (if opcode = 0x00 then Some ContinuationFrame
      else if opcode = 0x01 then Some TextFrame
      else if opcode = 0x02 then Some BinaryFrame
      else if opcode = 0x03 \<or> opcode = 0x04 \<or> opcode = 0x05 \<or> opcode = 0x06 \<or> opcode = 0x07
        then Some NonControlFrame
      else if opcode = 0x08 then Some ConnectionClose
      else if opcode = 0x09 then Some Ping
      else if opcode = 0x0a then Some Pong
      else if opcode = 0x0b \<or> opcode = 0x0c \<or> opcode = 0x0d \<or> opcode = 0x0e \<or> opcode = 0x0f
        then Some ControlFrame
      else None)"

text \<open>The first byte: \<open>FIN\<close> and the opcode. The \<open>RSV\<close> bits are ignored.\<close>

definition readFirstByte :: "Stream \<Rightarrow> Frame reading" where
  "readFirstByte s =
     (case ReadByte s of
        (Inl e, s1) \<Rightarrow> (Returns (Inl e), s1)
      | (Inr b, s1) \<Rightarrow>
          (let f = (if b AND 0x80 = 0x80 then zeroFrame\<lparr>FIN := True\<rparr> else zeroFrame)
           in case opcodeOf (b AND 0x0f) of
                None \<Rightarrow> (Returns (Inl InvalidOpcode), s1)
              | Some oc \<Rightarrow> (Returns (Inr (f\<lparr>Opcode := oc\<rparr>)), s1)))"

text \<open>The second byte, the mask bit and the length, with its extended forms.\<close>

definition readLength :: "Frame \<Rightarrow> Stream \<Rightarrow> Frame reading" where
  "readLength f s =
     (case ReadByte s of
        (Inl e, s1) \<Rightarrow> (Returns (Inl e), s1)
      | (Inr payloadMetaData, s1) \<Rightarrow>
          (let f1 = (if payloadMetaData AND 0x80 = 0x80 then f\<lparr>Mask := True\<rparr> else f);
               payloadLengthMetadata = payloadMetaData AND 0x7f
           in if 0 \<le> payloadLengthMetadata \<and> payloadLengthMetadata \<le> 125 then
                (Returns (Inr (f1\<lparr>payloadLengthInt := Some (ucast payloadLengthMetadata)\<rparr>)), s1)
              else if payloadLengthMetadata = 126 then
                (case Read (replicate 2 0) s1 of
                   ((lengthBuf, n, Some e), s2) \<Rightarrow> (Returns (Inl e), s2)
                 | ((lengthBuf, n, None), s2) \<Rightarrow>
                     (Returns (Inr (f1\<lparr>payloadLengthInt16 := Some (Uint16 lengthBuf)\<rparr>)), s2))
              else if payloadLengthMetadata = 127 then
                (case Read (replicate 8 0) s1 of
                   ((lengthBuf, n, Some e), s2) \<Rightarrow> (Returns (Inl e), s2)
                 | ((lengthBuf, n, None), s2) \<Rightarrow>
                     (Returns (Inr (f1\<lparr>payloadLengthInt64 := Some (Uint64 lengthBuf)\<rparr>)), s2))
              else (Returns (Inl InvalidLength), s1)))"

text \<open>The masking key of a masked frame; a failed read is reported as \<open>BadRequest\<close>.\<close>

definition readMaskingKey :: "Frame \<Rightarrow> Stream \<Rightarrow> Frame reading" where
  "readMaskingKey f s =
     (if Mask f then
        (case Read (replicate 4 0) s of
           ((maskingKey, n, Some e), s1) \<Rightarrow> (Returns (Inl BadRequest), s1)
         | ((maskingKey, n, None), s1) \<Rightarrow> (Returns (Inr (f\<lparr>MaskingKey := maskingKey\<rparr>)), s1))
      else (Returns (Inr f), s))"

text \<open>
  The payload. \<open>make([]byte, f.PayloadLength())\<close> panics when the length, a
  \<open>uint64\<close>, is no \<open>int\<close>.
\<close>

definition readPayload :: "Frame \<Rightarrow> Stream \<Rightarrow> Frame reading" where
  "readPayload f s =
     (if uint (PayloadLength f) > MaxInt then (Panics, s)
      else
        (case Read (replicate (unat (PayloadLength f)) 0) s of
           ((payload, n, Some e), s1) \<Rightarrow> (Returns (Inl BadRequest), s1)
         | ((payload, n, None), s1) \<Rightarrow> (Returns (Inr (f\<lparr>ApplicationData := payload\<rparr>)), s1)))"

definition readFrame :: "Stream \<Rightarrow> Frame reading" where
  "readFrame s =
     bind_read (readFirstByte s) (\<lambda>f s1.
     bind_read (readLength f s1) (\<lambda>f s2.
     bind_read (readMaskingKey f s2) (\<lambda>f s3.
     readPayload f s3)))"

section \<open>Receiving messages\<close>

text \<open>
  The loop of \<open>Receive\<close>, from the message accumulated so far. Both error exits
  return the accumulated message with the error.
\<close>

function Receive_loop :: "byte list \<Rightarrow> Stream \<Rightarrow> (byte list \<times> error option) result \<times> Stream" where
  "Receive_loop message s =
     (case readFrame s of
        (Panics, s1) \<Rightarrow> (Panics, s1)
      | (Returns (Inl err), s1) \<Rightarrow> (Returns (message, Some err), s1)
      | (Returns (Inr frame), s1) \<Rightarrow>
          (case umask frame of
             Panics \<Rightarrow> (Panics, s1)
           | Returns (umasked, Some err) \<Rightarrow> (Returns (message, Some err), s1)
           | Returns (umasked, None) \<Rightarrow>
               if FIN frame then (Returns (message @ umasked, None), s1)
               else Receive_loop (message @ umasked) s1))"
  by pat_completeness auto
termination
proof -
  have rd: "length (snd (Read p t)) \<le> length t" for p t
    by (simp add: Read_def Let_def)
  have first: "readFirstByte t = (Returns (Inr f), t1) \<Longrightarrow> length t1 < length t" for t f t1
    by (auto simp: readFirstByte_def ReadByte_def Let_def split: list.splits option.splits)
  have len: "length (snd (readLength f t)) \<le> length t" for f t
    using rd[of "replicate 2 0" "tl t"] rd[of "replicate 8 0" "tl t"]
    by (auto simp: readLength_def ReadByte_def Let_def split: list.splits option.splits prod.splits)
  have key: "length (snd (readMaskingKey f t)) \<le> length t" for f t
    using rd[of "replicate 4 0" t]
    by (auto simp: readMaskingKey_def split: option.splits prod.splits)
  have pay: "length (snd (readPayload f t)) \<le> length t" for f t
    using rd[of "replicate (unat (PayloadLength f)) 0" t]
    by (auto simp: readPayload_def split: option.splits prod.splits)
  have consumes: "length t1 < length t" if rf: "readFrame t = (Returns (Inr frame), t1)"
    for t frame t1
  proof -
    from rf obtain f1 u1 f2 u2 f3 u3 where
      a: "readFirstByte t = (Returns (Inr f1), u1)" and
      b: "readLength f1 u1 = (Returns (Inr f2), u2)" and
      c: "readMaskingKey f2 u2 = (Returns (Inr f3), u3)" and
      d: "readPayload f3 u3 = (Returns (Inr frame), t1)"
      by (auto simp: readFrame_def bind_read_def split: prod.splits result.splits sum.splits)
    from first[OF a] len[of f1 u1] key[of f2 u2] pay[of f3 u3] b c d
    show ?thesis by simp
  qed
  show ?thesis
    by (relation "measure (\<lambda>(message, s). length s)") (auto dest: consumes[OF sym])
qed

definition Receive :: "Stream \<Rightarrow> (byte list \<times> error option) result \<times> Stream" where
  "Receive s = Receive_loop [] s"

section \<open>The accept token\<close>

text \<open>A Go string is its bytes.\<close>

definition bytes_of :: "string \<Rightarrow> byte list" where
  "bytes_of str = map of_char str"

text \<open>
  \<open>crypto/sha1\<close>: SHA-1 as FIPS 180-4 defines it. The message is padded with the bit
  1, zeros, and its length in bits as a 64-bit big-endian number, to a multiple of 64
  bytes; each block of 64 bytes updates five 32-bit words in 80 rounds.
\<close>

definition rotl :: "nat \<Rightarrow> 32 word \<Rightarrow> 32 word" where
  "rotl n w = push_bit n w OR drop_bit (32 - n) w"

definition sha1_pad :: "byte list \<Rightarrow> byte list" where
  "sha1_pad msg =
     msg @ [0x80] @ replicate ((119 - length msg mod 64) mod 64) 0
         @ PutUint64 (of_nat (8 * length msg))"

fun be32_words :: "byte list \<Rightarrow> 32 word list" where
  "be32_words (a # b # c # d # rest) =
     (push_bit 24 (ucast a) OR push_bit 16 (ucast b) OR push_bit 8 (ucast c) OR ucast d)
       # be32_words rest"
| "be32_words _ = []"

fun sha1_extend :: "nat \<Rightarrow> 32 word list \<Rightarrow> 32 word list"
  and sha1_next :: "nat \<Rightarrow> 32 word list \<Rightarrow> 32 word \<Rightarrow> 32 word list" where
  "sha1_extend 0 win = []"
| "sha1_extend (Suc k) win =
     sha1_next k (tl win) (rotl 1 (win ! 13 XOR win ! 8 XOR win ! 2 XOR win ! 0))"
| "sha1_next k win x = x # sha1_extend k (win @ [x])"

definition sha1_schedule :: "32 word list \<Rightarrow> 32 word list" where
  "sha1_schedule w = w @ sha1_extend 64 w"

definition sha1_f :: "nat \<Rightarrow> 32 word \<Rightarrow> 32 word \<Rightarrow> 32 word \<Rightarrow> 32 word" where
  "sha1_f i b c d =
     (if i < 20 then (b AND c) OR (NOT b AND d)
      else if i < 40 then b XOR c XOR d
      else if i < 60 then (b AND c) OR (b AND d) OR (c AND d)
      else b XOR c XOR d)"

definition sha1_k :: "nat \<Rightarrow> 32 word" where
  "sha1_k i =
     (if i < 20 then 0x5A827999 else if i < 40 then 0x6ED9EBA1
      else if i < 60 then 0x8F1BBCDC else 0xCA62C1D6)"

type_synonym sha1_state = "32 word \<times> 32 word \<times> 32 word \<times> 32 word \<times> 32 word"

fun sha1_rounds :: "nat \<Rightarrow> 32 word list \<Rightarrow> sha1_state \<Rightarrow> sha1_state" where
  "sha1_rounds i [] st = st"
| "sha1_rounds i (wi # w) (a, b, c, d, e) =
     sha1_rounds (Suc i) w (rotl 5 a + sha1_f i b c d + e + sha1_k i + wi, a, rotl 30 b, c, d)"

definition sha1_block :: "sha1_state \<Rightarrow> byte list \<Rightarrow> sha1_state" where
  "sha1_block st block =
     (case st of (h0, h1, h2, h3, h4) \<Rightarrow>
        (case sha1_rounds 0 (sha1_schedule (be32_words block)) st of
           (a, b, c, d, e) \<Rightarrow> (h0 + a, h1 + b, h2 + c, h3 + d, h4 + e)))"

fun sha1_blocks :: "nat \<Rightarrow> sha1_state \<Rightarrow> byte list \<Rightarrow> sha1_state" where
  "sha1_blocks 0 st bytes = st"
| "sha1_blocks (Suc k) st bytes = sha1_blocks k (sha1_block st (take 64 bytes)) (drop 64 bytes)"

definition PutUint32 :: "32 word \<Rightarrow> byte list" where
  "PutUint32 v = [ucast (drop_bit 24 v), ucast (drop_bit 16 v), ucast (drop_bit 8 v), ucast v]"

definition sha1_digest :: "sha1_state \<Rightarrow> byte list" where
  "sha1_digest st =
     (case st of (h0, h1, h2, h3, h4) \<Rightarrow>
        PutUint32 h0 @ PutUint32 h1 @ PutUint32 h2 @ PutUint32 h3 @ PutUint32 h4)"

definition sha1_Sum :: "byte list \<Rightarrow> byte list" where
  "sha1_Sum msg =
     sha1_digest
       (sha1_blocks (length (sha1_pad msg) div 64)
          (0x67452301, 0xEFCDAB89, 0x98BADCFE, 0x10325476, 0xC3D2E1F0) (sha1_pad msg))"

text \<open>\<open>base64.StdEncoding.EncodeToString\<close>: the alphabet of RFC 4648 with \<open>=\<close> padding.\<close>

definition encodeStd :: string where
  "encodeStd = ''ABCDEFGHIJKLMNOPQRSTUVWXYZabcdefghijklmnopqrstuvwxyz0123456789+/''"

definition b64 :: "byte \<Rightarrow> char" where
  "b64 v = encodeStd ! unat v"

fun EncodeToString :: "byte list \<Rightarrow> string" where
  "EncodeToString (a # b # c # rest) =
     [b64 (drop_bit 2 a),
      b64 (push_bit 4 (a AND 0x03) OR drop_bit 4 b),
      b64 (push_bit 2 (b AND 0x0F) OR drop_bit 6 c),
      b64 (c AND 0x3F)] @ EncodeToString rest"
| "EncodeToString [a, b] =
     [b64 (drop_bit 2 a),
      b64 (push_bit 4 (a AND 0x03) OR drop_bit 4 b),
      b64 (push_bit 2 (b AND 0x0F)),
      CHR ''='']"
| "EncodeToString [a] =
     [b64 (drop_bit 2 a), b64 (push_bit 4 (a AND 0x03)), CHR ''='', CHR ''='']"
| "EncodeToString [] = []"

definition websocketGUID :: string where
  "websocketGUID = ''258EAFA5-E914-47DA-95CA-C5AB0DC85B11''"

definition generateWebsocketAcceptToken :: "string \<Rightarrow> string" where
  "generateWebsocketAcceptToken secWebsocketKey =
     (let combinedKey = bytes_of (secWebsocketKey @ websocketGUID);
          hash = sha1_Sum combinedKey;
          encodedKey = EncodeToString hash
      in encodedKey)"

section \<open>Opening a connection\<close>

text \<open>
  What \<open>Open\<close> is given. A response writer either is no \<open>http.Hijacker\<close>, or its
  \<open>Hijack\<close> fails, or it yields the connection: the bytes the peer will send and the
  writer towards the peer. Of the request only the \<open>Sec-WebSocket-Key\<close> header is used.
\<close>

record Conn =
  incoming :: Stream
  outgoing :: Writer

datatype ResponseWriter =
    NotHijacker
  | Hijacker "error + Conn"

record Request =
  secWebSocketKey :: string

record WSOpener =
  MaxBytes :: int

record Websocket =
  reader :: Stream
  writer :: Writer
  t :: WebsocketType
  framingLimit :: int

text \<open>
  The response built by \<open>newWebsocketAcceptResponse\<close>; the header keeps the order
  of the \<open>Set\<close> calls. How \<open>net/http\<close> writes a response on the wire is a parameter
  of the handshake.
\<close>

record Response =
  Status :: string
  StatusCode :: int
  Header :: "(string \<times> string) list"
  Proto :: string
  ProtoMajor :: int
  ProtoMinor :: int

definition newWebsocketAcceptResponse :: "string \<Rightarrow> Response" where
  "newWebsocketAcceptResponse acceptToken =
     \<lparr> Status = ''101 Switching Protocols'', StatusCode = 101,
       Header = [(''Upgrade'', ''websocket''), (''Connection'', ''Upgrade''),
                 (''Sec-WebSocket-Accept'', acceptToken)],
       Proto = ''HTTP/1.1'', ProtoMajor = 1, ProtoMinor = 1 \<rparr>"

definition handshake ::
  "(Response \<Rightarrow> byte list) \<Rightarrow> Writer \<Rightarrow> Request \<Rightarrow> error option \<times> Writer" where
  "handshake wire w r =
     (let websocketKey = secWebSocketKey r;
          acceptToken = generateWebsocketAcceptToken websocketKey;
          response = newWebsocketAcceptResponse acceptToken
      in case Write (wire response) w of
           (Some e, w1) \<Rightarrow> (Some e, w1)
         | (None, w1) \<Rightarrow>
             (case Flush w1 of
                (Some e, w2) \<Rightarrow> (Some e, w2)
              | (None, w2) \<Rightarrow> (None, w2)))"

text \<open>
  \<open>Open\<close>: the framing limit of the new connection is \<open>MaxBytes\<close> as it stands.
\<close>

definition Open ::
  "WSOpener \<Rightarrow> (Response \<Rightarrow> byte list) \<Rightarrow> ResponseWriter \<Rightarrow> Request \<Rightarrow> WebsocketType
     \<Rightarrow> error + Websocket" where
  "Open wso wire w r ty =
     (case w of
        NotHijacker \<Rightarrow> Inl HijackingNotSupported
      | Hijacker (Inl err) \<Rightarrow> Inl err
      | Hijacker (Inr conn) \<Rightarrow>
          (case handshake wire (outgoing conn) r of
             (Some err, w1) \<Rightarrow> Inl err
           | (None, w1) \<Rightarrow>
               Inr \<lparr> reader = incoming conn, writer = w1, t = ty,
                     framingLimit = MaxBytes wso \<rparr>))"

text \<open>\<open>Close\<close> does nothing and reports no error.\<close>

definition Close :: "Websocket \<Rightarrow> error option" where
  "Close ws = None"

section \<open>Properties of masking\<close>

lemma umask_loop_key4:
  "length mk = 4 \<Longrightarrow>
   umask_loop mk i bs acc =
     Returns (acc @ map (\<lambda>(k, b). b XOR mk ! (k mod 4)) (zip [i ..< i + length bs] bs))"
proof (induction bs arbitrary: i acc)
  case Nil
  then show ?case by simp
next
  case (Cons b bs)
  have "[i ..< i + length (b # bs)] = i # [Suc i ..< Suc i + length bs]"
    by (simp add: upt_rec)
  then show ?case using Cons by (simp add: Let_def)
qed

lemma umask_loop_nil_key:
  "bs \<noteq> [] \<Longrightarrow> umask_loop [] i bs acc = Panics"
  by (cases bs) (simp_all add: Let_def)

text \<open>
  C2. The masking transform applied twice with the same key should give the data back,
  and its output should be as long as its input. \<open>umask\<close> does neither: on the one
  byte \<open>0x41\<close> under the key \<open>1, 2, 3, 4\<close> it returns two bytes, a zero and the masked
  byte, and applied to that result it returns four bytes.
\<close>

theorem umask_twice_not_identity:
  "umask (zeroFrame\<lparr>MaskingKey := [1, 2, 3, 4], ApplicationData := [0x41]\<rparr>)
     = Returns ([0, 0x40], None)
   \<and> umask (zeroFrame\<lparr>MaskingKey := [1, 2, 3, 4], ApplicationData := [0, 0x40]\<rparr>)
     = Returns ([0, 0, 1, 0x42], None)"
  by (simp add: umask_def zeroFrame_def Let_def)

section \<open>Properties of fragmentation\<close>

lemma fragment_loop_zero_limit:
  assumes "fragment_loop limit data i payloadLength frames = Some y"
  shows "\<not> (limit = 0 \<and> i < length data \<and> 0 < payloadLength)"
proof (rule fragment_loop.raw_induct
    [where P = "\<lambda>limit data i payloadLength frames y.
                  \<not> (limit = 0 \<and> i < length data \<and> 0 < payloadLength)", OF _ assms],
    goal_cases)
  case (1 fl limit data i payloadLength frames y)
  show ?case
  proof
    assume c: "limit = 0 \<and> i < length data \<and> 0 < payloadLength"
    then have "\<exists>frame. fragment_iter limit data i payloadLength frames
                 = Continue i payloadLength (frames @ [frame])"
      by (simp add: fragment_iter_def Reader_Read_def setChunkLength_def)
    with 1(2) obtain frame where "fl limit data i payloadLength (frames @ [frame]) = Some y"
      by auto
    from 1(1)[OF this] c show False by simp
  qed
qed

lemma fragment_zero_limit_diverges:
  "data \<noteq> [] \<Longrightarrow> fragment ty 0 data = None"
proof -
  assume "data \<noteq> []"
  then have "fragment_loop 0 data 0 (int (length data)) [] = None"
    using fragment_loop_zero_limit[of 0 data 0 "int (length data)" "[]"]
    by (cases "fragment_loop 0 data 0 (int (length data)) []") auto
  then show ?thesis by (simp add: fragment_def)
qed

lemma setChunkLength_total:
  assumes "0 \<le> n" "n \<le> MaxInt"
  shows "setChunkLength n f \<noteq> None"
proof -
  have u64: "uint (word_of_int n :: 64 word) = n"
    using assms by (simp add: uint_word_of_int take_bit_eq_mod MaxInt_def)
  have u16: "n < 65536 \<Longrightarrow> uint (word_of_int n :: 16 word) = n"
    using assms by (simp add: uint_word_of_int take_bit_eq_mod)
  show ?thesis
  proof (cases "n < 65535")
    case True
    then show ?thesis using u16 assms
      by (simp add: setChunkLength_def word_le_def word_less_def)
  next
    case False
    then show ?thesis using u64 assms
      by (simp add: setChunkLength_def word_le_def word_less_def MaxInt_def)
  qed
qed

lemma setChunkLength_fields:
  "setChunkLength n f = Some g \<Longrightarrow>
     FIN g = FIN f \<and> Opcode g = Opcode f \<and> ApplicationData g = ApplicationData f
     \<and> MaskingKey g = MaskingKey f \<and> Mask g = Mask f"
  by (auto simp: setChunkLength_def split: if_splits)

lemma fragment_iter_end:
  "0 \<le> limit \<Longrightarrow> fragment_iter limit data (length data) 0 frames = Leave (Returns (frames, None))"
  by (simp add: fragment_iter_def Reader_Read_def)

lemma Reader_Read_chunk:
  "i < length s \<Longrightarrow> n \<le> length s - i \<Longrightarrow>
     Reader_Read s i (replicate n 0) = (take n (drop i s), n, None, i + n)"
  by (simp add: Reader_Read_def Let_def min_def)

lemma fragment_iter_chunk:
  assumes "1 \<le> limit" "i < length data" "int (length data) \<le> MaxInt"
  shows "\<exists>frame. fragment_iter limit data i (int (length data - i)) frames =
           Continue (i + min (nat limit) (length data - i))
                    (int (length data - (i + min (nat limit) (length data - i))))
                    (frames @ [frame])
         \<and> \<not> FIN frame \<and> Opcode frame = ContinuationFrame
         \<and> ApplicationData frame = take (min (nat limit) (length data - i)) (drop i data)"
proof -
  let ?n = "min (nat limit) (length data - i)"
  let ?chunk = "take ?n (drop i data)"
  let ?f0 = "zeroFrame\<lparr>ApplicationData := ?chunk, Opcode := ContinuationFrame\<rparr>"
  have len: "length ?chunk = ?n" by simp
  have "0 \<le> int ?n" "int ?n \<le> MaxInt" using assms by auto
  then obtain g where g: "setChunkLength (int ?n) ?f0 = Some g"
    using setChunkLength_total[of "int ?n" ?f0] by auto
  have cs: "(if limit < int (length data - i) then limit else int (length data - i)) = int ?n"
    using assms by auto
  have "fragment_iter limit data i (int (length data - i)) frames =
          Continue (i + ?n) (int (length data - i) - int ?n) (frames @ [g])"
    using assms g unfolding fragment_iter_def Let_def cs
    by (simp add: Reader_Read_chunk)
  moreover have "int (length data - i) - int ?n = int (length data - (i + ?n))"
    by auto
  moreover have "\<not> FIN g \<and> Opcode g = ContinuationFrame \<and> ApplicationData g = ?chunk"
    using setChunkLength_fields[OF g] by (simp add: zeroFrame_def)
  ultimately show ?thesis by auto
qed

lemma fragment_loop_chunks:
  assumes "1 \<le> limit" "i \<le> length data" "int (length data) \<le> MaxInt"
  shows "\<exists>fs. fragment_loop limit data i (int (length data - i)) frames
                 = Some (Returns (frames @ fs, None))
          \<and> map FIN fs = replicate (length fs) False
          \<and> map Opcode fs = replicate (length fs) ContinuationFrame
          \<and> concat (map ApplicationData fs) = drop i data
          \<and> (fs = [] \<longleftrightarrow> i = length data)"
  using assms
proof (induction "length data - i" arbitrary: i frames rule: less_induct)
  case less
  show ?case
  proof (cases "i = length data")
    case True
    have "fragment_loop limit data i (int (length data - i)) frames = Some (Returns (frames, None))"
      using True less.prems fragment_iter_end[of limit data frames]
      by (subst fragment_loop.simps) simp
    then show ?thesis using True by simp
  next
    case False
    then have lt: "i < length data" using less.prems by simp
    let ?n = "min (nat limit) (length data - i)"
    from fragment_iter_chunk[OF less.prems(1) lt less.prems(3), of frames]
    obtain frame where it: "fragment_iter limit data i (int (length data - i)) frames =
           Continue (i + ?n) (int (length data - (i + ?n))) (frames @ [frame])"
      and fr: "\<not> FIN frame" "Opcode frame = ContinuationFrame"
              "ApplicationData frame = take ?n (drop i data)"
      by blast
    have pos: "0 < ?n" using lt less.prems(1) by auto
    have "length data - (i + ?n) < length data - i" using pos lt by auto
    moreover have "i + ?n \<le> length data" using lt by auto
    ultimately obtain fs where
      fs: "fragment_loop limit data (i + ?n) (int (length data - (i + ?n))) (frames @ [frame])
             = Some (Returns ((frames @ [frame]) @ fs, None))"
          "map FIN fs = replicate (length fs) False"
          "map Opcode fs = replicate (length fs) ContinuationFrame"
          "concat (map ApplicationData fs) = drop (i + ?n) data"
      using less.hyps[of "i + ?n" "frames @ [frame]"] less.prems(1,3) by blast
    have "fragment_loop limit data i (int (length data - i)) frames
            = Some (Returns (frames @ (frame # fs), None))"
      by (subst fragment_loop.simps) (simp add: it fs(1))
    moreover have "concat (map ApplicationData (frame # fs)) = drop i data"
    proof -
      have "drop (i + ?n) data = drop ?n (drop i data)"
        by (simp only: drop_drop add.commute)
      then have "concat (map ApplicationData (frame # fs))
                   = take ?n (drop i data) @ drop ?n (drop i data)"
        using fr(3) fs(4) by simp
      then show ?thesis by (simp only: append_take_drop_id)
    qed
    ultimately show ?thesis using fr fs(2,3) False
      by (intro exI[of _ "frame # fs"]) simp
  qed
qed

lemma replicate_Suc_update_last:
  "(replicate (Suc m) a)[m := b] = replicate m a @ [b]"
  by (induction m) simp_all

lemma replicate_update_last:
  "0 < n \<Longrightarrow> (replicate n a)[n - Suc 0 := b] = replicate (n - Suc 0) a @ [b]"
  using replicate_Suc_update_last[of "n - 1" a b] by (cases n) simp_all

lemma map_update_same:
  "f x = f (xs ! i) \<Longrightarrow> map f (xs[i := x]) = map f xs"
  by (induction xs arbitrary: i) (auto split: nat.splits)

lemma finish_frames_ok:
  assumes ne: "fs \<noteq> []"
    and fin: "map FIN fs = replicate (length fs) False"
    and op: "map Opcode fs = replicate (length fs) ContinuationFrame"
    and ty: "ty = TextWebsocket \<or> ty = BinaryWebsocket"
  shows "\<exists>fs'. finish_frames ty fs = (fs', None)
          \<and> length fs' = length fs
          \<and> map FIN fs' = replicate (length fs - 1) False @ [True]
          \<and> map Opcode fs' =
                (if ty = TextWebsocket then TextFrame else BinaryFrame)
                  # replicate (length fs - 1) ContinuationFrame
          \<and> map ApplicationData fs' = map ApplicationData fs"
proof -
  let ?n = "length fs"
  let ?oc = "if ty = TextWebsocket then TextFrame else BinaryFrame"
  let ?fs1 = "fs[?n - 1 := (fs ! (?n - 1))\<lparr>FIN := True\<rparr>]"
  let ?fs2 = "?fs1[0 := (?fs1 ! 0)\<lparr>Opcode := ?oc\<rparr>]"
  have n: "0 < ?n" using ne by simp
  have eq: "finish_frames ty fs = (?fs2, None)"
    using n ty by (auto simp: finish_frames_def Let_def wstype_defs)
  have "map FIN ?fs1 = (map FIN fs)[?n - 1 := True]"
    by (simp add: map_update)
  then have f1: "map FIN ?fs1 = replicate (?n - 1) False @ [True]"
    using n replicate_update_last[of ?n False True] by (simp add: fin)
  have o1: "map Opcode ?fs1 = replicate ?n ContinuationFrame"
    using op by (simp add: map_update_same)
  have a1: "map ApplicationData ?fs1 = map ApplicationData fs"
    by (simp add: map_update_same)
  have f2: "map FIN ?fs2 = map FIN ?fs1"
    by (rule map_update_same) simp
  have "map Opcode ?fs2 = (map Opcode ?fs1)[0 := ?oc]"
    by (simp add: map_update)
  also have "\<dots> = (replicate ?n ContinuationFrame)[0 := ?oc]"
    by (simp only: o1)
  also have "\<dots> = ?oc # replicate (?n - 1) ContinuationFrame"
    using n by (cases ?n) simp_all
  finally have o2: "map Opcode ?fs2 = ?oc # replicate (?n - 1) ContinuationFrame" .
  have a2: "map ApplicationData ?fs2 = map ApplicationData ?fs1"
    by (rule map_update_same) simp
  have "length ?fs2 = ?n" by simp
  with eq f1 f2 o2 a1 a2 show ?thesis
    by (intro exI[of _ ?fs2]) (simp only: simp_thms)
qed

lemma fragment_loop_start:
  assumes "1 \<le> limit" "int (length data) \<le> MaxInt"
  shows "\<exists>fs. fragment_loop limit data 0 (int (length data)) [] = Some (Returns (fs, None))
          \<and> map FIN fs = replicate (length fs) False
          \<and> map Opcode fs = replicate (length fs) ContinuationFrame
          \<and> concat (map ApplicationData fs) = data
          \<and> (fs = [] \<longleftrightarrow> data = [])"
  using fragment_loop_chunks[OF assms(1) _ assms(2), of 0 "[]"] by simp

lemma fragment_terminates:
  assumes "1 \<le> limit" "int (length data) \<le> MaxInt"
  shows "fragment ty limit data \<noteq> None"
proof -
  from fragment_loop_start[OF assms] obtain fs where
    "fragment_loop limit data 0 (int (length data)) [] = Some (Returns (fs, None))" by blast
  then show ?thesis by (simp add: fragment_def)
qed

text \<open>
  C6. A non-empty payload and a bound of at least 1, on a text or binary connection:
  \<open>fragment\<close> returns its frames without error; \<open>FIN\<close> is set on the last frame and
  on no other; the first frame carries the opcode of the connection's message type and
  every other frame the continuation opcode; the chunks, in order, are the payload.
  The payload is a Go slice, so its length is an \<open>int\<close>.
\<close>

theorem fragment_fin_placement:
  assumes "data \<noteq> []" and "1 \<le> limit" and "int (length data) \<le> MaxInt"
    and "ty = TextWebsocket \<or> ty = BinaryWebsocket"
  shows "\<exists>frames. fragment ty limit data = Some (Returns (frames, None))
           \<and> frames \<noteq> []
           \<and> map FIN frames = replicate (length frames - 1) False @ [True]
           \<and> map Opcode frames =
                 (if ty = TextWebsocket then TextFrame else BinaryFrame)
                   # replicate (length frames - 1) ContinuationFrame
           \<and> concat (map ApplicationData frames) = data"
proof -
  from fragment_loop_start[OF assms(2,3)] obtain fs where
    loop: "fragment_loop limit data 0 (int (length data)) [] = Some (Returns (fs, None))"
    and fin: "map FIN fs = replicate (length fs) False"
    and op: "map Opcode fs = replicate (length fs) ContinuationFrame"
    and app: "concat (map ApplicationData fs) = data"
    and emp: "(fs = []) = (data = [])"
    by (elim exE conjE)
  have ne: "fs \<noteq> []" using emp assms(1) by simp
  from finish_frames_ok[OF ne fin op assms(4)] obtain fs' where
    ff: "finish_frames ty fs = (fs', None)" and len: "length fs' = length fs"
    and fin': "map FIN fs' = replicate (length fs - 1) False @ [True]"
    and op': "map Opcode fs' = (if ty = TextWebsocket then TextFrame else BinaryFrame)
                  # replicate (length fs - 1) ContinuationFrame"
    and app': "map ApplicationData fs' = map ApplicationData fs"
    by (elim exE conjE)
  show ?thesis
  proof (intro exI[of _ fs'] conjI)
    show "fragment ty limit data = Some (Returns (fs', None))"
      by (simp add: fragment_def loop ff)
    show "fs' \<noteq> []" using ne len by (cases fs') simp_all
    show "map FIN fs' = replicate (length fs' - 1) False @ [True]"
      by (simp only: fin' len)
    show "map Opcode fs' = (if ty = TextWebsocket then TextFrame else BinaryFrame)
            # replicate (length fs' - 1) ContinuationFrame"
      by (simp only: op' len)
    show "concat (map ApplicationData fs') = data"
      by (simp only: app' app)
  qed
qed

theorem fragment_fin_placement_witness:
  "\<exists>frames. fragment TextWebsocket 2 [1, 2, 3] = Some (Returns (frames, None))
           \<and> frames \<noteq> []
           \<and> map FIN frames = replicate (length frames - 1) False @ [True]
           \<and> map Opcode frames = TextFrame # replicate (length frames - 1) ContinuationFrame
           \<and> concat (map ApplicationData frames) = [1, 2, 3]"
  using fragment_fin_placement[of "[1, 2, 3]" 2 TextWebsocket] by (simp add: MaxInt_def)

text \<open>
  C5. An empty payload should give one empty final frame. \<open>fragment\<close> gives none: the
  first \<open>Read\<close> reports \<open>io.EOF\<close> and the loop is left before a frame is built.
\<close>

theorem fragment_empty_counterexample:
  "fragment TextWebsocket 20 [] = Some (Returns ([], None))"
proof -
  have "fragment_loop 20 [] 0 0 [] = Some (Returns ([], None))"
    by (subst fragment_loop.simps) (simp add: fragment_iter_def Reader_Read_def)
  then show ?thesis by (simp add: fragment_def finish_frames_def)
qed

text \<open>
  C5, as the code has it: for every bound that is not negative and every connection
  type, fragmenting the empty payload returns no frame and no error, and \<open>Send\<close> of
  the empty payload writes nothing.
\<close>

theorem fragment_empty_no_frame:
  assumes "0 \<le> limit"
  shows "fragment ty limit [] = Some (Returns ([], None))
         \<and> Send ty limit [] w = Some (Returns (None, w))"
proof -
  have "fragment_loop limit [] 0 0 [] = Some (Returns ([], None))"
    using assms by (subst fragment_loop.simps) (simp add: fragment_iter_def Reader_Read_def)
  then have "fragment ty limit [] = Some (Returns ([], None))"
    by (simp add: fragment_def finish_frames_def)
  then show ?thesis by (simp add: Send_def)
qed

theorem fragment_empty_no_frame_witness:
  "fragment BinaryWebsocket 0 [] = Some (Returns ([], None))
   \<and> Send BinaryWebsocket 0 [] \<lparr>werr = None, out = []\<rparr>
        = Some (Returns (None, \<lparr>werr = None, out = []\<rparr>))"
  using fragment_empty_no_frame[of 0 BinaryWebsocket "\<lparr>werr = None, out = []\<rparr>"] by simp

section \<open>Properties of the frame decoder\<close>

lemma nibble_cases:
  fixes x :: byte
  assumes "x \<le> 15"
  shows "x = 0 \<or> x = 1 \<or> x = 2 \<or> x = 3 \<or> x = 4 \<or> x = 5 \<or> x = 6 \<or> x = 7
       \<or> x = 8 \<or> x = 9 \<or> x = 10 \<or> x = 11 \<or> x = 12 \<or> x = 13 \<or> x = 14 \<or> x = 15"
proof -
  have "unat x \<le> 15" using assms by (simp add: word_le_nat_alt)
  then have "unat x = 0 \<or> unat x = 1 \<or> unat x = 2 \<or> unat x = 3 \<or> unat x = 4 \<or> unat x = 5
       \<or> unat x = 6 \<or> unat x = 7 \<or> unat x = 8 \<or> unat x = 9 \<or> unat x = 10 \<or> unat x = 11
       \<or> unat x = 12 \<or> unat x = 13 \<or> unat x = 14 \<or> unat x = 15"
    by arith
  then show ?thesis by (simp add: word_unat_eq_iff)
qed

lemma opcodeOf_nibble: "opcodeOf (b AND 0x0f) \<noteq> None"
proof -
  have "b AND 0x0f \<le> 0x0f" by (rule word_and_le1)
  from nibble_cases[OF this] show ?thesis
    by (elim disjE) (simp_all add: opcodeOf_def)
qed

lemma tag_cases:
  fixes b :: byte
  shows "b AND 0x7f \<le> 125 \<or> b AND 0x7f = 126 \<or> b AND 0x7f = 127"
proof -
  have "b AND 0x7f \<le> 0x7f" by (rule word_and_le1)
  then have "unat (b AND 0x7f) \<le> 127" by (simp add: word_le_nat_alt)
  then have "unat (b AND 0x7f) \<le> 125 \<or> unat (b AND 0x7f) = 126 \<or> unat (b AND 0x7f) = 127"
    by arith
  then show ?thesis by (simp add: word_unat_eq_iff word_le_nat_alt)
qed

lemma Read_error: "Read p s = ((q, n, Some e), s1) \<Longrightarrow> e = EOF"
  by (auto simp: Read_def Let_def split: if_splits)

lemma readFirstByte_errors:
  "readFirstByte s = (Returns (Inl e), s1) \<Longrightarrow> e = EOF"
  by (auto simp: readFirstByte_def ReadByte_def Let_def opcodeOf_nibble
           split: list.splits option.splits)

lemma readLength_errors:
  "readLength f s = (Returns (Inl e), s1) \<Longrightarrow> e = EOF"
proof (cases s)
  case Nil
  assume "readLength f s = (Returns (Inl e), s1)"
  with Nil show ?thesis by (simp add: readLength_def ReadByte_def)
next
  case (Cons b s')
  assume r: "readLength f s = (Returns (Inl e), s1)"
  from tag_cases[of b] show ?thesis
  proof (elim disjE)
    assume "b AND 0x7f \<le> 125"
    with r Cons show ?thesis by (simp add: readLength_def ReadByte_def Let_def)
  next
    assume t: "b AND 0x7f = 126"
    with r Cons show ?thesis
      by (auto simp: readLength_def ReadByte_def Let_def split: prod.splits option.splits
               dest: Read_error)
  next
    assume t: "b AND 0x7f = 127"
    with r Cons show ?thesis
      by (auto simp: readLength_def ReadByte_def Let_def split: prod.splits option.splits
               dest: Read_error)
  qed
qed

lemma readMaskingKey_errors:
  "readMaskingKey f s = (Returns (Inl e), s1) \<Longrightarrow> e = BadRequest"
  by (auto simp: readMaskingKey_def split: if_splits prod.splits option.splits)

lemma readPayload_errors:
  "readPayload f s = (Returns (Inl e), s1) \<Longrightarrow> e = BadRequest"
  by (auto simp: readPayload_def split: if_splits prod.splits option.splits)

lemma readFrame_errors:
  assumes "readFrame s = (Returns (Inl e), s1)"
  shows "e = EOF \<or> e = BadRequest"
proof -
  consider (a) "readFirstByte s = (Returns (Inl e), s1)"
    | (b) f t where "readLength f t = (Returns (Inl e), s1)"
    | (c) f t where "readMaskingKey f t = (Returns (Inl e), s1)"
    | (d) f t where "readPayload f t = (Returns (Inl e), s1)"
    using assms
    by (auto simp: readFrame_def bind_read_def split: prod.splits result.splits sum.splits)
  then show ?thesis
    using readFirstByte_errors readLength_errors readMaskingKey_errors readPayload_errors
    by cases auto
qed

text \<open>
  C9. Whatever bytes arrive, \<open>readFrame\<close> returns neither \<open>InvalidOpcode\<close> nor
  \<open>InvalidLength\<close>: the nibble \<open>b & 0x0f\<close> is one of the sixteen values the \<open>switch\<close>
  lists, and \<open>b & 0x7f\<close> is at most 125, or 126, or 127.
\<close>

theorem readFrame_never_invalid:
  "fst (readFrame s) \<noteq> Returns (Inl InvalidOpcode)
   \<and> fst (readFrame s) \<noteq> Returns (Inl InvalidLength)"
proof (intro conjI notI)
  assume "fst (readFrame s) = Returns (Inl InvalidOpcode)"
  then have "readFrame s = (Returns (Inl InvalidOpcode), snd (readFrame s))"
    by (simp add: prod_eq_iff)
  from readFrame_errors[OF this] show False by simp
next
  assume "fst (readFrame s) = Returns (Inl InvalidLength)"
  then have "readFrame s = (Returns (Inl InvalidLength), snd (readFrame s))"
    by (simp add: prod_eq_iff)
  from readFrame_errors[OF this] show False by simp
qed

section \<open>Properties of receiving\<close>

lemmas readFrame_defs =
  readFrame_def bind_read_def readFirstByte_def readLength_def readMaskingKey_def
  readPayload_def ReadByte_def Read_def opcodeOf_def PayloadLength_def MaxInt_def



text \<open>
  C4. No operation should panic on protocol input. \<open>Receive\<close> does: it unmasks every
  frame, and an unmasked frame has no key, so an unmasked frame with a payload makes
  \<open>umask\<close> index the \<open>nil\<close> key; and a frame that announces a 64-bit length beyond the
  largest \<open>int\<close> makes \<open>make\<close> panic in \<open>readFrame\<close>.
\<close>

theorem Receive_panics:
  "Receive [0x82, 0x02, 0xCA, 0xFE] = (Panics, [])
   \<and> Receive [0x81, 0xFF, 0xFF, 0xFF, 0xFF, 0xFF, 0xFF, 0xFF, 0xFF, 0xFF, 1, 2, 3, 4]
       = (Panics, [])"
proof -
  let ?f = "zeroFrame\<lparr>FIN := True, Opcode := BinaryFrame, payloadLengthInt := Some 2,
              ApplicationData := [0xCA, 0xFE]\<rparr>"
  have a: "readFrame [0x82, 0x02, 0xCA, 0xFE] = (Returns (Inr ?f), [])"
    by (simp add: readFrame_defs Let_def zeroFrame_def)
  have b: "umask ?f = Panics"
    by (simp add: umask_def zeroFrame_def Let_def)
  have c: "readFrame [0x81, 0xFF, 0xFF, 0xFF, 0xFF, 0xFF, 0xFF, 0xFF, 0xFF, 0xFF, 1, 2, 3, 4]
             = (Panics, [])"
    by (simp add: readFrame_defs Let_def zeroFrame_def Uint64_def)
  have "Receive [0x82, 0x02, 0xCA, 0xFE] = (Panics, [])"
    unfolding Receive_def by (subst Receive_loop.simps) (simp add: a b)
  moreover have "Receive [0x81, 0xFF, 0xFF, 0xFF, 0xFF, 0xFF, 0xFF, 0xFF, 0xFF, 0xFF, 1, 2, 3, 4]
      = (Panics, [])"
    unfolding Receive_def by (subst Receive_loop.simps) (simp add: c)
  ultimately show ?thesis by simp
qed

section \<open>Properties of sending\<close>

lemma fragment_single_chunk:
  assumes "data \<noteq> []" and "int (length data) \<le> limit"
    and "setChunkLength (int (length data))
           (zeroFrame\<lparr>ApplicationData := data, Opcode := ContinuationFrame\<rparr>) = Some frame"
  shows "fragment_loop limit data 0 (int (length data)) [] = Some (Returns ([frame], None))"
proof -
  have rd: "Reader_Read data 0 (replicate (length data) 0) = (data, length data, None, length data)"
    using assms(1) by (simp add: Reader_Read_def Let_def)
  have cs: "(if limit < int (length data) then limit else int (length data)) = int (length data)"
    using assms(2) by simp
  have it: "fragment_iter limit data 0 (int (length data)) [] = Continue (length data) 0 [frame]"
    unfolding fragment_iter_def Let_def cs using assms(3) by (simp add: rd)
  have "0 \<le> limit" using assms(2) by (rule order_trans[rotated]) simp
  then have en: "fragment_iter limit data (length data) 0 [frame] = Leave (Returns ([frame], None))"
    by (rule fragment_iter_end)
  show ?thesis
    by (subst fragment_loop.simps, simp add: it, subst fragment_loop.simps, simp add: en)
qed

lemmas writeFrame_defs =
  writeFrame_def writeExtendedLength_def writePayload_def WriteByte_def Write_def Flush_def
  opcodeBits_def lengthByte_def PayloadLength_def PutUint16_def PutUint64_def

text \<open>
  C3. A payload of exactly 65535 bytes, sent as one chunk, should be encoded in the
  16-bit form. \<open>fragment\<close> stores that length in the 64-bit field, because its test
  for the 16-bit field is \<open>< math.MaxUint16\<close>; \<open>writeFrame\<close> chooses the 16-bit form,
  because its test is \<open><= math.MaxUint16\<close>, and dereferences the 16-bit field, which
  is \<open>nil\<close>: \<open>Send\<close> panics.
\<close>

theorem Send_65535_panics:
  "Send TextWebsocket 65535 (replicate 65535 0x41) \<lparr>werr = None, out = []\<rparr> = Some Panics"
proof -
  define data :: "byte list" where "data = replicate 65535 0x41"
  have len: "length data = 65535" by (simp only: data_def length_replicate)
  then have ne: "data \<noteq> []" by auto
  let ?base = "zeroFrame\<lparr>ApplicationData := data, Opcode := ContinuationFrame\<rparr>"
  let ?frame = "?base\<lparr>payloadLengthInt64 := Some 65535\<rparr>"
  have sc: "setChunkLength (int (length data)) ?base = Some ?frame"
    by (simp add: len setChunkLength_def)
  have "fragment_loop 65535 data 0 (int (length data)) [] = Some (Returns ([?frame], None))"
    using ne sc by (intro fragment_single_chunk) (simp_all add: len)
  then have fr: "fragment TextWebsocket 65535 data
                  = Some (Returns ([?frame\<lparr>FIN := True, Opcode := TextFrame\<rparr>], None))"
    by (simp add: fragment_def finish_frames_def)
  have "Send TextWebsocket 65535 data \<lparr>werr = None, out = []\<rparr> = Some Panics"
    by (simp add: Send_def fr writeFrame_defs opcode_defs zeroFrame_def Let_def)
  then show ?thesis by (simp only: data_def)
qed

text \<open>
  C1. Fragmenting, encoding, decoding and reassembling should give the payload back.
  For the one-byte payload \<open>0x41\<close> on a text connection \<open>Send\<close> writes the frame
  \<open>0x81 0x01 0x41\<close>, and \<open>Receive\<close> on these bytes panics: the frame is not masked
  and \<open>umask\<close> indexes its \<open>nil\<close> key.
\<close>

theorem roundtrip_panics:
  "Send TextWebsocket 20 [0x41] \<lparr>werr = None, out = []\<rparr>
     = Some (Returns (None, \<lparr>werr = None, out = [0x81, 0x01, 0x41]\<rparr>))
   \<and> Receive [0x81, 0x01, 0x41] = (Panics, [])"
proof -
  let ?base = "zeroFrame\<lparr>ApplicationData := [0x41], Opcode := ContinuationFrame\<rparr>"
  let ?frame = "?base\<lparr>payloadLengthInt := Some 1\<rparr>"
  have sc: "setChunkLength (int (length [0x41 :: byte])) ?base = Some ?frame"
    by (simp add: setChunkLength_def)
  have "fragment_loop 20 [0x41] 0 (int (length [0x41 :: byte])) [] = Some (Returns ([?frame], None))"
    using sc by (intro fragment_single_chunk) simp_all
  then have fr: "fragment TextWebsocket 20 [0x41]
                  = Some (Returns ([?frame\<lparr>FIN := True, Opcode := TextFrame\<rparr>], None))"
    by (simp add: fragment_def finish_frames_def)
  have snd: "Send TextWebsocket 20 [0x41] \<lparr>werr = None, out = []\<rparr>
     = Some (Returns (None, \<lparr>werr = None, out = [0x81, 0x01, 0x41]\<rparr>))"
    by (simp add: Send_def fr writeFrame_defs opcode_defs zeroFrame_def Let_def)
  let ?g = "zeroFrame\<lparr>FIN := True, Opcode := TextFrame, payloadLengthInt := Some 1,
              ApplicationData := [0x41]\<rparr>"
  have a: "readFrame [0x81, 0x01, 0x41] = (Returns (Inr ?g), [])"
    by (simp add: readFrame_defs Let_def zeroFrame_def)
  have b: "umask ?g = Panics"
    by (simp add: umask_def zeroFrame_def Let_def)
  have "Receive [0x81, 0x01, 0x41] = (Panics, [])"
    unfolding Receive_def by (subst Receive_loop.simps) (simp add: a b)
  with snd show ?thesis by simp
qed

section \<open>Properties of opening\<close>

lemma handshake_ok:
  "werr w = None \<Longrightarrow>
     handshake wire w r =
       (None, w\<lparr>out := out w @ wire (newWebsocketAcceptResponse
                                        (generateWebsocketAcceptToken (secWebSocketKey r)))\<rparr>)"
  by (simp add: handshake_def Write_def Flush_def Let_def)

text \<open>
  C8. A bound of zero should make \<open>Open\<close> fail. It does not: with a response writer
  that can be hijacked and a healthy connection, \<open>Open\<close> with \<open>MaxBytes = 0\<close> returns a
  connection whose framing limit is 0, and on that connection the fragmentation loop
  never ends for a payload of one byte.
\<close>

theorem Open_zero_bound_counterexample:
  "Open \<lparr>MaxBytes = 0\<rparr> (bytes_of \<circ> Status)
        (Hijacker (Inr \<lparr>incoming = [], outgoing = \<lparr>werr = None, out = []\<rparr>\<rparr>))
        \<lparr>secWebSocketKey = []\<rparr> TextWebsocket
     = Inr \<lparr>reader = [], writer = \<lparr>werr = None, out = bytes_of ''101 Switching Protocols''\<rparr>,
            t = TextWebsocket, framingLimit = 0\<rparr>
   \<and> fragment TextWebsocket 0 [0x41] = None"
proof -
  have "fragment TextWebsocket 0 [0x41] = None"
    by (rule fragment_zero_limit_diverges) simp
  then show ?thesis
    by (simp add: Open_def handshake_ok newWebsocketAcceptResponse_def)
qed

text \<open>
  C8, as the code has it: \<open>Open\<close> does not look at the bound. Whenever the response
  writer yields a connection whose writer has met no error, \<open>Open\<close> succeeds and the
  framing limit of the connection is \<open>MaxBytes\<close> unchanged, whatever its value; and
  when that value is at least 1, fragmentation on the connection terminates for every
  payload.
\<close>

theorem Open_keeps_MaxBytes:
  assumes "werr (outgoing conn) = None"
  shows "\<exists>ws. Open wso wire (Hijacker (Inr conn)) r ty = Inr ws
           \<and> framingLimit ws = MaxBytes wso \<and> t ws = ty
           \<and> (1 \<le> MaxBytes wso \<and> int (length data) \<le> MaxInt
                \<longrightarrow> fragment (t ws) (framingLimit ws) data \<noteq> None)"
  using assms fragment_terminates[of "MaxBytes wso" data ty]
  by (simp add: Open_def handshake_ok)

theorem Open_keeps_MaxBytes_witness:
  "\<exists>ws. Open \<lparr>MaxBytes = 20\<rparr> (bytes_of \<circ> Status)
              (Hijacker (Inr \<lparr>incoming = [], outgoing = \<lparr>werr = None, out = []\<rparr>\<rparr>))
              \<lparr>secWebSocketKey = []\<rparr> BinaryWebsocket = Inr ws
        \<and> framingLimit ws = 20 \<and> t ws = BinaryWebsocket
        \<and> fragment (t ws) (framingLimit ws) [0x41] \<noteq> None"
  using Open_keeps_MaxBytes[of "\<lparr>incoming = [], outgoing = \<lparr>werr = None, out = []\<rparr>\<rparr>"
          "\<lparr>MaxBytes = 20\<rparr>" "bytes_of \<circ> Status" "\<lparr>secWebSocketKey = []\<rparr>" BinaryWebsocket
          "[0x41]"]
  by (simp add: MaxInt_def)

end
